theory Spec2Isabelle
  imports Complex_Main
begin

section \<open>JavaScript strings, as the component uses them\<close>

text \<open>
  Strings are lists of characters. The string operations below are the ASCII part of
  their JavaScript namesakes: \<open>trim\<close> strips tab, line feed, vertical tab, form feed,
  carriage return and space; \<open>toLowerCase\<close> maps \<open>A\<close>..\<open>Z\<close> to \<open>a\<close>..\<open>z\<close> and leaves
  every other character alone. A string is falsy exactly when it is empty.
  JavaScript's \<open>trim\<close> also strips the blanks beyond ASCII (U+00A0, U+FEFF and others)
  and its \<open>toLowerCase\<close> also maps letters beyond ASCII; the strings of this model are
  ASCII strings, on which the definitions agree with the source.
\<close>

definition isWhitespace :: "char \<Rightarrow> bool" where
  "isWhitespace c = (c \<in> set [CHR 0x09, CHR 0x0A, CHR 0x0B, CHR 0x0C, CHR 0x0D, CHR 0x20])"

definition trim :: "string \<Rightarrow> string" where
  "trim s = rev (dropWhile isWhitespace (rev (dropWhile isWhitespace s)))"

definition toLowerCase :: "string \<Rightarrow> string" where
  "toLowerCase s =
     map (\<lambda>c. case map_of (zip ''ABCDEFGHIJKLMNOPQRSTUVWXYZ'' ''abcdefghijklmnopqrstuvwxyz'') c of
                 Some l \<Rightarrow> l
               | None \<Rightarrow> c) s"

text \<open>
  \<open>s.split(sep)\<close> for a one-character separator: the pieces between all occurrences of
  the separator; the empty string gives one empty piece.
\<close>

fun split :: "char \<Rightarrow> string \<Rightarrow> string list" where
  "split sep [] = [[]]"
| "split sep (c # cs) =
     (if c = sep then [] # split sep cs
      else (case split sep cs of
              [] \<Rightarrow> [[c]]
            | w # ws \<Rightarrow> (c # w) # ws))"

text \<open>\<open>xs[i]\<close>: \<open>undefined\<close> (here \<open>None\<close>) when the index is out of range.\<close>

definition at_index :: "'a list \<Rightarrow> nat \<Rightarrow> 'a option" where
  "at_index xs i = (if i < length xs then Some (xs ! i) else None)"

text \<open>\<open>xs.filter((_, i) => i !== idx)\<close>\<close>

definition filter_not_index :: "nat \<Rightarrow> 'a list \<Rightarrow> 'a list" where
  "filter_not_index idx xs = map fst (filter (\<lambda>(x, i). i \<noteq> idx) (zip xs [0..<length xs]))"

section \<open>Data model\<close>

text \<open>
  \<open>EnrichmentField\<close> of \<open>lib/types\<close>. The source types \<open>type\<close> as one of
  \<open>"string" | "number" | "boolean" | "array"\<close>, but \<open>handleGenerateFields\<close> casts the
  string of the response to that union without a check, so at run time the field holds
  any string; it is a string here.
\<close>

record EnrichmentField =
  name :: string
  displayName :: string
  description :: string
  type :: string
  required :: bool

text \<open>A \<open>CSVRow\<close> maps column names to cell values.\<close>

type_synonym CSVRow = "string \<rightharpoonup> string"

datatype wizard_step = Step1 | Step2

text \<open>The manual-entry form, \<open>customField\<close>.\<close>

record custom_field =
  cf_name :: string
  cf_description :: string
  cf_type :: string

text \<open>What \<open>detectEmailColumn\<close> returns; \<open>columnName\<close> may be \<open>null\<close>.\<close>

record detection =
  columnName :: "string option"
  confidence :: real

text \<open>
  Everything the component does besides updating its state: notifications, the console,
  the network request, the clipboard and the callback \<open>onStartEnrichment\<close>.
\<close>

datatype effect =
    ToastError string
  | ToastSuccess string
  | ConsoleError string
  | FetchPost string string
  | ClipboardWrite string
  | OnStartEnrichment string "EnrichmentField list"

text \<open>
  The \<open>useState\<close> cells of \<open>UnifiedEnrichmentView\<close>, under their names in the source.
  Two more components make the effects and the asynchronous handler explicit:
  \<open>effects\<close> is the trace of effects so far, and \<open>inflight\<close> holds, for each request
  that awaits its response, the \<open>selectedFields\<close> its closure captured when
  \<open>handleGenerateFields\<close> was called.
\<close>

record view_state =
  step :: wizard_step
  emailColumn :: string
  selectedFields :: "EnrichmentField list"
  showManualAdd :: bool
  showNaturalLanguage :: bool
  naturalLanguageInput :: string
  suggestedFields :: "EnrichmentField list"
  isGenerating :: bool
  showAllRows :: bool
  showEmailDropdown :: bool
  showEmailDropdownStep1 :: bool
  customField :: custom_field
  effects :: "effect list"
  inflight :: "EnrichmentField list list"

definition PRESET_FIELDS :: "EnrichmentField list" where
  "PRESET_FIELDS =
    [\<lparr>name = ''companyName'', displayName = ''Company Name'',
      description = ''The name of the company'', type = ''string'', required = False\<rparr>,
     \<lparr>name = ''companyDescription'', displayName = ''Company Description'',
      description = ''A brief description of what the company does'',
      type = ''string'', required = False\<rparr>,
     \<lparr>name = ''industry'', displayName = ''Industry'',
      description = ''The primary industry the company operates in'',
      type = ''string'', required = False\<rparr>,
     \<lparr>name = ''employeeCount'', displayName = ''Employee Count'',
      description = ''The number of employees at the company'',
      type = ''number'', required = False\<rparr>,
     \<lparr>name = ''yearFounded'', displayName = ''Year Founded'',
      description = ''The year the company was founded'', type = ''number'', required = False\<rparr>,
     \<lparr>name = ''headquarters'', displayName = ''Headquarters'',
      description = ''The location of the company headquarters'',
      type = ''string'', required = False\<rparr>,
     \<lparr>name = ''fundingRaised'', displayName = ''Funding Raised'',
      description = ''Total funding raised by the company'', type = ''string'', required = False\<rparr>,
     \<lparr>name = ''fundingStage'', displayName = ''Funding Stage'',
      description = ''The current funding stage (e.g., Pre-seed, Seed, Series A, Series B, Series C, Series D+, IPO)'',
      type = ''string'', required = False\<rparr>]"

text \<open>
  The initial values of the \<open>useState\<close> cells. In
  \<open>PRESET_FIELDS.find((f) => f.name === n)!\<close> the \<open>!\<close> is a compile-time assertion
  only; all three look-ups succeed (lemma \<open>init_selectedFields\<close>).
\<close>

definition init_state :: view_state where
  "init_state =
    \<lparr>step = Step1,
     emailColumn = [],
     selectedFields =
       [the (find (\<lambda>f. name f = ''companyName'') PRESET_FIELDS),
        the (find (\<lambda>f. name f = ''companyDescription'') PRESET_FIELDS),
        the (find (\<lambda>f. name f = ''industry'') PRESET_FIELDS)],
     showManualAdd = False,
     showNaturalLanguage = False,
     naturalLanguageInput = [],
     suggestedFields = [],
     isGenerating = False,
     showAllRows = False,
     showEmailDropdown = False,
     showEmailDropdownStep1 = False,
     customField = \<lparr>cf_name = [], cf_description = [], cf_type = ''string''\<rparr>,
     effects = [],
     inflight = []\<rparr>"

section \<open>The response of \<open>/api/generate-fields\<close>\<close>

text \<open>
  One element of \<open>result.data.fields\<close>, at the type the source annotates the callback's
  parameter with: \<open>{displayName: string; description: string; type: string}\<close>.
\<close>

record field_descriptor =
  api_displayName :: string
  api_description :: string
  api_type :: string

text \<open>
  What \<open>response.json()\<close> can give. Arrays hold field descriptors (an array of anything
  else is outside this model); an object is its list of members in the order of the
  text, where a later member with the same key wins.
\<close>

datatype json =
    JNull
  | JBool bool
  | JNum real
  | JStr string
  | JArr "field_descriptor list"
  | JObj "(string \<times> json) list"

text \<open>What \<open>await fetch(...)\<close> can give: a rejection, or a response with its \<open>ok\<close> flag
  and its body (\<open>None\<close> when the body is not JSON, so that \<open>response.json()\<close> rejects).\<close>

datatype fetch_outcome =
    FetchRejected
  | Response bool "json option"

datatype exn =
    NetworkError
  | SyntaxError
  | TypeError
  | Error string

text \<open>Truthiness of a value; \<open>None\<close> is \<open>undefined\<close>.\<close>

fun truthy :: "json option \<Rightarrow> bool" where
  "truthy None = False"
| "truthy (Some JNull) = False"
| "truthy (Some (JBool b)) = b"
| "truthy (Some (JNum x)) = (x \<noteq> 0)"
| "truthy (Some (JStr s)) = (s \<noteq> [])"
| "truthy (Some (JArr ds)) = True"
| "truthy (Some (JObj ms)) = True"

text \<open>
  \<open>v.key\<close> for the keys the source reads (\<open>success\<close>, \<open>data\<close>, \<open>fields\<close>): a
  \<open>TypeError\<close> on \<open>null\<close> and \<open>undefined\<close>, the member of an object, and \<open>undefined\<close> on
  every other value.
\<close>

fun get_property :: "json option \<Rightarrow> string \<Rightarrow> exn + json option" where
  "get_property None key = Inl TypeError"
| "get_property (Some JNull) key = Inl TypeError"
| "get_property (Some (JObj ms)) key = Inr (map_of (rev ms) key)"
| "get_property (Some v) key = Inr None"

section \<open>Event handlers\<close>

text \<open>The \<open>useEffect\<close> that runs the detector; \<open>d\<close> is what \<open>detectEmailColumn(rows, columns)\<close>
  returned.\<close>

definition detectEffect :: "detection \<Rightarrow> view_state \<Rightarrow> view_state" where
  "detectEffect d s =
     (case columnName d of
        None \<Rightarrow> s
      | Some col \<Rightarrow>
          if col \<noteq> [] \<and> confidence d > 50 then s\<lparr>emailColumn := col\<rparr> else s)"

definition handleAddField :: "EnrichmentField \<Rightarrow> view_state \<Rightarrow> view_state" where
  "handleAddField field s =
     (if length (selectedFields s) \<ge> 10
      then s\<lparr>effects := effects s @ [ToastError ''Maximum 10 fields allowed'']\<rparr>
      else if find (\<lambda>f. name f = name field) (selectedFields s) = None
      then s\<lparr>selectedFields := selectedFields s @ [field]\<rparr>
      else s)"

definition handleRemoveField :: "string \<Rightarrow> view_state \<Rightarrow> view_state" where
  "handleRemoveField fieldName s =
     s\<lparr>selectedFields := filter (\<lambda>f. name f \<noteq> fieldName) (selectedFields s)\<rparr>"

text \<open>
  \<open>generateVariableName\<close> comes from \<open>lib/utils/field-utils\<close>; the handlers that call it
  take it as the parameter \<open>gen\<close>.
\<close>

type_synonym name_generator = "string \<Rightarrow> string list \<Rightarrow> string"

definition handleAddCustomField :: "name_generator \<Rightarrow> view_state \<Rightarrow> view_state" where
  "handleAddCustomField gen s =
     (if cf_name (customField s) = [] \<or> cf_description (customField s) = []
      then s\<lparr>effects := effects s @ [ToastError ''Please fill in all fields'']\<rparr>
      else
        let fieldName = gen (cf_name (customField s)) (map name (selectedFields s));
            newField = \<lparr>name = fieldName,
                        displayName = cf_name (customField s),
                        description = cf_description (customField s),
                        type = cf_type (customField s),
                        required = False\<rparr>
        in (handleAddField newField s)
             \<lparr>customField := \<lparr>cf_name = [], cf_description = [], cf_type = ''string''\<rparr>,
              showManualAdd := False\<rparr>)"

text \<open>The callback of \<open>result.data.fields.map\<close>; \<open>selected\<close> is the \<open>selectedFields\<close> of the closure.\<close>

definition convertField :: "name_generator \<Rightarrow> EnrichmentField list \<Rightarrow> field_descriptor \<Rightarrow> EnrichmentField" where
  "convertField gen selected field =
     \<lparr>name = gen (api_displayName field) (map name selected),
      displayName = api_displayName field,
      description = api_description field,
      type = (if api_type field = ''text'' then ''string''
              else if api_type field = ''array'' then ''string''
              else api_type field),
      required = False\<rparr>"

text \<open>
  The \<open>try\<close> block of \<open>handleGenerateFields\<close> from the response on: the fields to suggest,
  or the exception thrown.
\<close>

definition convertResult :: "name_generator \<Rightarrow> EnrichmentField list \<Rightarrow> json \<Rightarrow> exn + EnrichmentField list" where
  "convertResult gen selected result =
     (case get_property (Some result) ''success'' of
        Inl e \<Rightarrow> Inl e
      | Inr success \<Rightarrow>
          if \<not> truthy success then Inl (Error ''Invalid response format'')
          else (case get_property (Some result) ''data'' of
                  Inl e \<Rightarrow> Inl e
                | Inr data \<Rightarrow>
                    if \<not> truthy data then Inl (Error ''Invalid response format'')
                    else (case get_property data ''fields'' of
                            Inl e \<Rightarrow> Inl e
                          | Inr flds \<Rightarrow>
                              if \<not> truthy flds then Inl (Error ''Invalid response format'')
                              else (case flds of
                                      Some (JArr ds) \<Rightarrow> Inr (map (convertField gen selected) ds)
                                    | _ \<Rightarrow> Inl TypeError))))"

definition convertedFields :: "name_generator \<Rightarrow> EnrichmentField list \<Rightarrow> fetch_outcome \<Rightarrow> exn + EnrichmentField list" where
  "convertedFields gen selected outcome =
     (case outcome of
        FetchRejected \<Rightarrow> Inl NetworkError
      | Response ok body \<Rightarrow>
          if \<not> ok then Inl (Error ''Failed to generate fields'')
          else (case body of
                  None \<Rightarrow> Inl SyntaxError
                | Some result \<Rightarrow> convertResult gen selected result))"

text \<open>
  \<open>handleGenerateFields\<close> is asynchronous. \<open>handleGenerateFields_request\<close> is the part
  before \<open>await fetch\<close>, \<open>handleGenerateFields_settle\<close> the part after it, run when the
  request settles, on the state of that moment and with the \<open>selectedFields\<close> of the
  closure.
\<close>

definition handleGenerateFields_request :: "view_state \<Rightarrow> view_state" where
  "handleGenerateFields_request s =
     (if trim (naturalLanguageInput s) = [] then s
      else s\<lparr>isGenerating := True,
             effects := effects s @ [FetchPost ''/api/generate-fields'' (naturalLanguageInput s)],
             inflight := inflight s @ [selectedFields s]\<rparr>)"

definition handleGenerateFields_settle ::
  "name_generator \<Rightarrow> EnrichmentField list \<Rightarrow> fetch_outcome \<Rightarrow> view_state \<Rightarrow> view_state" where
  "handleGenerateFields_settle gen selected outcome s =
     (case convertedFields gen selected outcome of
        Inr flds \<Rightarrow>
          s\<lparr>suggestedFields := flds,
            showNaturalLanguage := False,
            naturalLanguageInput := [],
            isGenerating := False\<rparr>
      | Inl e \<Rightarrow>
          s\<lparr>effects := effects s @
               [ConsoleError ''Error generating fields:'',
                ToastError ''Failed to generate fields. Please try again.''],
            isGenerating := False\<rparr>)"

text \<open>The \<open>Accept\<close> and \<open>Reject\<close> buttons of the suggestion card number \<open>idx\<close>.\<close>

definition acceptSuggested :: "nat \<Rightarrow> view_state \<Rightarrow> view_state" where
  "acceptSuggested idx s =
     (handleAddField (suggestedFields s ! idx) s)
       \<lparr>suggestedFields := filter_not_index idx (suggestedFields s)\<rparr>"

definition rejectSuggested :: "nat \<Rightarrow> view_state \<Rightarrow> view_state" where
  "rejectSuggested idx s = s\<lparr>suggestedFields := filter_not_index idx (suggestedFields s)\<rparr>"

text \<open>The \<open>Start Enrichment\<close> button: its \<open>disabled\<close> attribute and its \<open>onClick\<close>.\<close>

definition startEnrichment_disabled :: "view_state \<Rightarrow> bool" where
  "startEnrichment_disabled s = (length (selectedFields s) = 0)"

definition startEnrichment_onClick :: "view_state \<Rightarrow> view_state" where
  "startEnrichment_onClick s =
     s\<lparr>effects := effects s @ [OnStartEnrichment (emailColumn s) (selectedFields s)]\<rparr>"

section \<open>The preview table and the skip warning\<close>

definition displayRows :: "CSVRow list \<Rightarrow> view_state \<Rightarrow> CSVRow list" where
  "displayRows rows s = (if showAllRows s then rows else take 3 rows)"

text \<open>The copy button of an email cell: \<open>written\<close> tells whether the clipboard write
  was fulfilled.\<close>

definition copyEmail :: "CSVRow \<Rightarrow> bool \<Rightarrow> view_state \<Rightarrow> view_state" where
  "copyEmail row written s =
     (let cellValue = (case row (emailColumn s) of None \<Rightarrow> [] | Some v \<Rightarrow> v);
          email = trim cellValue
      in if email = [] then s
         else s\<lparr>effects := effects s @
                  (ClipboardWrite email #
                   (if written then [ToastSuccess ''Email copied to clipboard''] else []))\<rparr>)"

definition commonDomains :: "string list" where
  "commonDomains =
     [''gmail.com'', ''yahoo.com'', ''hotmail.com'', ''outlook.com'', ''aol.com'', ''icloud.com'']"

text \<open>The predicate of \<open>rows.filter\<close> in the skip warning.\<close>

definition skippable :: "string \<Rightarrow> CSVRow \<Rightarrow> bool" where
  "skippable emailCol row =
     (case map_option toLowerCase (row emailCol) of
        None \<Rightarrow> False
      | Some email \<Rightarrow>
          if email = [] then False
          else (case at_index (split CHR ''@'' email) 1 of
                  None \<Rightarrow> False
                | Some domain \<Rightarrow> domain \<noteq> [] \<and> domain \<in> set commonDomains))"

definition skippableEmails :: "CSVRow list \<Rightarrow> string \<Rightarrow> CSVRow list" where
  "skippableEmails rows emailCol = filter (skippable emailCol) rows"

text \<open>The number the warning shows, \<open>None\<close> when no warning is rendered.\<close>

definition skipWarning :: "CSVRow list \<Rightarrow> view_state \<Rightarrow> nat option" where
  "skipWarning rows s =
     (if step s = Step1 \<and> emailColumn s \<noteq> []
      then (if length (skippableEmails rows (emailColumn s)) = 0 then None
            else Some (length (skippableEmails rows (emailColumn s))))
      else None)"

section \<open>The component as a transition system\<close>

text \<open>
  One constructor for each thing that can happen to the mounted component: the detector
  effect, a user action on a control, and the settling of a request. \<open>fire\<close> runs the
  handler the source attaches to the control, provided the control is rendered and not
  disabled in the current state; otherwise the event changes nothing.
\<close>

datatype event =
    DetectorEffect detection
  | ClickShowMoreRows
  | ClickShowLess
  | ClickCopyEmail nat bool
  | SelectEmailColumn string
  | ClickChange
  | ClickNext
  | ClickBack
  | ClickPreset nat
  | ToggleNaturalLanguage
  | TypeNaturalLanguage string
  | ClickGenerateFields
  | RequestSettled nat fetch_outcome
  | ToggleManualAdd
  | TypeCustomName string
  | TypeCustomDescription string
  | SelectCustomType string
  | ClickAddField
  | ClickAccept nat
  | ClickReject nat
  | ClickStartEnrichment

definition clickPreset :: "nat \<Rightarrow> view_state \<Rightarrow> view_state" where
  "clickPreset i s =
     (let field = PRESET_FIELDS ! i;
          isSelected = (find (\<lambda>f. name f = name field) (selectedFields s) \<noteq> None)
      in if length (selectedFields s) \<ge> 10 \<and> \<not> isSelected then s
         else if isSelected then handleRemoveField (name field) s
         else handleAddField field s)"

definition selectEmailColumn :: "string \<Rightarrow> view_state \<Rightarrow> view_state" where
  "selectEmailColumn v s =
     (if step s = Step1 then
        (if emailColumn s \<noteq> [] then
           (if showEmailDropdown s
            then s\<lparr>emailColumn := v, showEmailDropdownStep1 := False\<rparr>
            else s)
         else s\<lparr>emailColumn := v\<rparr>)
      else
        (if showEmailDropdown s
         then s\<lparr>emailColumn := v, showEmailDropdown := False\<rparr>
         else s))"

definition clickChange :: "view_state \<Rightarrow> view_state" where
  "clickChange s =
     (if (step s = Step1 \<and> emailColumn s = []) \<or> showEmailDropdown s then s
      else s\<lparr>showEmailDropdown := True\<rparr>)"

fun fire :: "name_generator \<Rightarrow> CSVRow list \<Rightarrow> string list \<Rightarrow> event \<Rightarrow> view_state \<Rightarrow> view_state" where
  "fire gen rows columns (DetectorEffect d) s = detectEffect d s"
| "fire gen rows columns ClickShowMoreRows s =
     (if \<not> showAllRows s \<and> length rows > 3 then s\<lparr>showAllRows := True\<rparr> else s)"
| "fire gen rows columns ClickShowLess s =
     (if showAllRows s then s\<lparr>showAllRows := False\<rparr> else s)"
| "fire gen rows columns (ClickCopyEmail r written) s =
     (if emailColumn s \<in> set columns \<and> r < length (displayRows rows s)
      then copyEmail (displayRows rows s ! r) written s else s)"
| "fire gen rows columns (SelectEmailColumn v) s =
     (if v \<in> set columns then selectEmailColumn v s else s)"
| "fire gen rows columns ClickChange s = clickChange s"
| "fire gen rows columns ClickNext s =
     (if step s = Step1 \<and> emailColumn s \<noteq> [] then s\<lparr>step := Step2\<rparr> else s)"
| "fire gen rows columns ClickBack s =
     (if step s = Step2 then s\<lparr>step := Step1\<rparr> else s)"
| "fire gen rows columns (ClickPreset i) s =
     (if step s = Step2 \<and> i < length PRESET_FIELDS then clickPreset i s else s)"
| "fire gen rows columns ToggleNaturalLanguage s =
     (if step s = Step2 then s\<lparr>showNaturalLanguage := \<not> showNaturalLanguage s\<rparr> else s)"
| "fire gen rows columns (TypeNaturalLanguage v) s =
     (if step s = Step2 \<and> showNaturalLanguage s then s\<lparr>naturalLanguageInput := v\<rparr> else s)"
| "fire gen rows columns ClickGenerateFields s =
     (if step s = Step2 \<and> showNaturalLanguage s
         \<and> \<not> (trim (naturalLanguageInput s) = [] \<or> isGenerating s)
      then handleGenerateFields_request s else s)"
| "fire gen rows columns (RequestSettled k outcome) s =
     (if k < length (inflight s)
      then handleGenerateFields_settle gen (inflight s ! k) outcome
             (s\<lparr>inflight := filter_not_index k (inflight s)\<rparr>)
      else s)"
| "fire gen rows columns ToggleManualAdd s =
     (if step s = Step2 then s\<lparr>showManualAdd := \<not> showManualAdd s\<rparr> else s)"
| "fire gen rows columns (TypeCustomName v) s =
     (if step s = Step2 \<and> showManualAdd s
      then s\<lparr>customField := (customField s)\<lparr>cf_name := v\<rparr>\<rparr> else s)"
| "fire gen rows columns (TypeCustomDescription v) s =
     (if step s = Step2 \<and> showManualAdd s
      then s\<lparr>customField := (customField s)\<lparr>cf_description := v\<rparr>\<rparr> else s)"
| "fire gen rows columns (SelectCustomType v) s =
     (if step s = Step2 \<and> showManualAdd s
         \<and> v \<in> set [''string'', ''number'', ''boolean'', ''array'']
      then s\<lparr>customField := (customField s)\<lparr>cf_type := v\<rparr>\<rparr> else s)"
| "fire gen rows columns ClickAddField s =
     (if step s = Step2 \<and> showManualAdd s
         \<and> \<not> (cf_name (customField s) = [] \<or> cf_description (customField s) = [])
      then handleAddCustomField gen s else s)"
| "fire gen rows columns (ClickAccept idx) s =
     (if step s = Step2 \<and> idx < length (suggestedFields s) then acceptSuggested idx s else s)"
| "fire gen rows columns (ClickReject idx) s =
     (if step s = Step2 \<and> idx < length (suggestedFields s) then rejectSuggested idx s else s)"
| "fire gen rows columns ClickStartEnrichment s =
     (if step s = Step2 \<and> \<not> startEnrichment_disabled s then startEnrichment_onClick s else s)"

text \<open>The state after a sequence of events, from the state \<open>s\<close>.\<close>

definition run :: "name_generator \<Rightarrow> CSVRow list \<Rightarrow> string list \<Rightarrow> event list \<Rightarrow> view_state \<Rightarrow> view_state" where
  "run gen rows columns es s = foldl (\<lambda>s e. fire gen rows columns e s) s es"

section \<open>Reference definitions for the statements\<close>

text \<open>
  The definitions of this section are not translations of the source; the theorems
  compare the handlers with them.
\<close>

text \<open>The member \<open>key\<close> of a value: \<open>undefined\<close> unless the value is an object that has it.\<close>

definition json_member :: "json option \<Rightarrow> string \<Rightarrow> json option" where
  "json_member v key = (case v of Some (JObj ms) \<Rightarrow> map_of (rev ms) key | _ \<Rightarrow> None)"

text \<open>
  A payload that \<open>handleGenerateFields\<close> turns into suggestions: \<open>success\<close> and \<open>data\<close>
  are truthy and \<open>data.fields\<close> is an array (lemmas \<open>convertResult_accepted\<close> and
  \<open>convertResult_rejected\<close>).
\<close>

definition payload_accepted :: "json \<Rightarrow> bool" where
  "payload_accepted result =
     (truthy (json_member (Some result) ''success'')
      \<and> truthy (json_member (Some result) ''data'')
      \<and> (case json_member (json_member (Some result) ''data'') ''fields'' of
            Some (JArr ds) \<Rightarrow> True
          | _ \<Rightarrow> False))"

text \<open>
  A request that fails: the fetch is rejected, the response is not OK, its body is not
  JSON, or its payload is not one of the above.
\<close>

definition request_failed :: "fetch_outcome \<Rightarrow> bool" where
  "request_failed outcome =
     (case outcome of
        FetchRejected \<Rightarrow> True
      | Response ok body \<Rightarrow>
          \<not> ok \<or> (case body of None \<Rightarrow> True | Some result \<Rightarrow> \<not> payload_accepted result))"

text \<open>The shape the specification gives for a usable payload, read to the letter:
  \<open>{success: true, data: {fields: [...]}}\<close>.\<close>

definition spec_payload_shape :: "json \<Rightarrow> bool" where
  "spec_payload_shape result =
     (case result of
        JObj ms \<Rightarrow>
          (case map_of (rev ms) ''success'' of
             Some (JBool True) \<Rightarrow>
               (case map_of (rev ms) ''data'' of
                  Some (JObj ds) \<Rightarrow>
                    (case map_of (rev ds) ''fields'' of
                       Some (JArr fs) \<Rightarrow> True
                     | _ \<Rightarrow> False)
                | _ \<Rightarrow> False)
           | _ \<Rightarrow> False)
      | _ \<Rightarrow> False)"

text \<open>
  The domain of an email value in the words of the specification: the value is split at
  its first \<open>@\<close>, and the domain is what follows.
\<close>

definition spec_domain :: "string \<Rightarrow> string option" where
  "spec_domain email =
     (if CHR ''@'' \<in> set email
      then Some (tl (dropWhile (\<lambda>c. c \<noteq> CHR ''@'') email))
      else None)"

text \<open>A row is counted, in the words of the specification, when its value is not empty
  and that domain, lowercased, is one of the six providers.\<close>

definition spec_skippable :: "string \<Rightarrow> CSVRow \<Rightarrow> bool" where
  "spec_skippable emailCol row =
     (case row emailCol of
        None \<Rightarrow> False
      | Some v \<Rightarrow>
          v \<noteq> [] \<and>
          (case spec_domain (toLowerCase v) of
             None \<Rightarrow> False
           | Some domain \<Rightarrow> domain \<in> set commonDomains))"

section \<open>Basic facts about the handlers\<close>

lemma init_selectedFields:
  "selectedFields init_state = take 3 PRESET_FIELDS"
  by (simp add: init_state_def PRESET_FIELDS_def)

lemma init_length: "length (selectedFields init_state) = 3"
  by (simp add: init_selectedFields PRESET_FIELDS_def)

lemma find_None_name: "(find (\<lambda>f. name f = n) xs = None) = (n \<notin> set (map name xs))"
  by (auto simp: find_None_iff)

lemma selectedFields_handleAddField:
  "selectedFields (handleAddField f s) =
     (if length (selectedFields s) < 10 \<and> name f \<notin> set (map name (selectedFields s))
      then selectedFields s @ [f] else selectedFields s)"
  by (simp add: handleAddField_def find_None_name)

lemma selectedFields_handleRemoveField:
  "selectedFields (handleRemoveField n s) = filter (\<lambda>f. name f \<noteq> n) (selectedFields s)"
  by (simp add: handleRemoveField_def)

lemma selectedFields_handleAddCustomField:
  "selectedFields (handleAddCustomField gen s) = selectedFields s \<or>
   (\<exists>f. selectedFields (handleAddCustomField gen s) = selectedFields (handleAddField f s))"
  by (auto simp: handleAddCustomField_def Let_def)

lemma selectedFields_settle:
  "selectedFields (handleGenerateFields_settle gen sel outcome s) = selectedFields s"
  by (simp add: handleGenerateFields_settle_def split: sum.splits)

text \<open>Every event leaves the selection alone, removes fields by name, or adds one field
  through \<open>handleAddField\<close>.\<close>

lemma selectedFields_fire:
  "selectedFields (fire gen rows columns e s) = selectedFields s
   \<or> (\<exists>n. selectedFields (fire gen rows columns e s) = filter (\<lambda>f. name f \<noteq> n) (selectedFields s))
   \<or> (\<exists>f. selectedFields (fire gen rows columns e s) = selectedFields (handleAddField f s))"
proof (cases e)
  case (ClickPreset i)
  then show ?thesis
    by (auto simp: clickPreset_def Let_def selectedFields_handleRemoveField)
next
  case ClickAddField
  then show ?thesis
    using selectedFields_handleAddCustomField [of gen s] by auto
next
  case (ClickAccept idx)
  then show ?thesis by (auto simp: acceptSuggested_def)
next
  case (RequestSettled k outcome)
  then show ?thesis by (simp add: selectedFields_settle)
next
  case (ClickCopyEmail r w)
  then show ?thesis by (simp add: copyEmail_def Let_def)
qed (simp_all add: detectEffect_def selectEmailColumn_def clickChange_def
       handleGenerateFields_request_def rejectSuggested_def startEnrichment_onClick_def
       split: option.splits)

lemma filter_zip_upt:
  "map fst (filter (\<lambda>(x, i). i \<noteq> idx) (zip xs [k..<k + length xs])) =
     (if idx < k then xs else take (idx - k) xs @ drop (Suc (idx - k)) xs)"
proof (induction xs arbitrary: k)
  case Nil
  then show ?case by simp
next
  case (Cons x xs)
  have upt: "zip (x # xs) [k..<k + length (x # xs)] = (x, k) # zip xs [Suc k..<Suc k + length xs]"
    by (simp del: upt_Suc add: upt_conv_Cons)
  show ?case
  proof (cases "idx = k")
    case True
    then show ?thesis
      unfolding upt using Cons.IH [of "Suc k"] by (simp del: upt_Suc)
  next
    case False
    show ?thesis
    proof (cases "idx < k")
      case True
      then show ?thesis
        unfolding upt using Cons.IH [of "Suc k"] by (simp del: upt_Suc)
    next
      case gt: False
      with False have "k < idx" by simp
      then obtain m where m: "idx = Suc (k + m)"
        using less_iff_Suc_add by auto
      show ?thesis
        unfolding upt using Cons.IH [of "Suc k"] by (simp del: upt_Suc add: m)
    qed
  qed
qed

lemma filter_not_index_eq:
  "filter_not_index idx xs = take idx xs @ drop (Suc idx) xs"
  using filter_zip_upt [of idx xs 0] by (simp add: filter_not_index_def)

lemma length_selected_fire:
  assumes "length (selectedFields s) \<le> 10"
  shows "length (selectedFields (fire gen rows columns e s)) \<le> 10"
proof -
  have "length (filter (\<lambda>f. name f \<noteq> n) (selectedFields s)) \<le> 10" for n
    using assms length_filter_le [of _ "selectedFields s"] by (meson le_trans)
  moreover have "length (selectedFields (handleAddField f s)) \<le> 10" for f
    using assms by (simp add: selectedFields_handleAddField)
  ultimately show ?thesis
    using selectedFields_fire [of gen rows columns e s] assms by auto
qed

lemma distinct_selected_fire:
  assumes "distinct (map name (selectedFields s))"
  shows "distinct (map name (selectedFields (fire gen rows columns e s)))"
proof -
  have "distinct (map name (filter (\<lambda>f. name f \<noteq> n) (selectedFields s)))" for n
    using assms by (rule distinct_map_filter)
  moreover have "distinct (map name (selectedFields (handleAddField f s)))" for f
    using assms by (simp add: selectedFields_handleAddField)
  ultimately show ?thesis
    using selectedFields_fire [of gen rows columns e s] assms by auto
qed

lemma run_Nil: "run gen rows columns [] s = s"
  by (simp add: run_def)

lemma run_Cons: "run gen rows columns (e # es) s = run gen rows columns es (fire gen rows columns e s)"
  by (simp add: run_def)

lemma length_selected_run:
  "length (selectedFields s) \<le> 10 \<Longrightarrow> length (selectedFields (run gen rows columns es s)) \<le> 10"
  by (induction es arbitrary: s) (simp_all add: run_Nil run_Cons length_selected_fire)

lemma distinct_selected_run:
  "distinct (map name (selectedFields s)) \<Longrightarrow>
   distinct (map name (selectedFields (run gen rows columns es s)))"
  by (induction es arbitrary: s) (simp_all add: run_Nil run_Cons distinct_selected_fire)

lemma init_names:
  "map name (selectedFields init_state) = [''companyName'', ''companyDescription'', ''industry'']"
  by (simp add: init_selectedFields PRESET_FIELDS_def)

lemma run_two:
  "run gen rows columns [e1, e2] s = fire gen rows columns e2 (fire gen rows columns e1 s)"
  by (simp add: run_def)

subsection \<open>Splitting at the separator\<close>

lemma split_unfold:
  "split sep s =
     takeWhile (\<lambda>c. c \<noteq> sep) s #
       (if sep \<in> set s then split sep (tl (dropWhile (\<lambda>c. c \<noteq> sep) s)) else [])"
  by (induction s) auto

lemma split_second:
  "at_index (split sep s) 1 =
     (if sep \<in> set s
      then Some (takeWhile (\<lambda>c. c \<noteq> sep) (tl (dropWhile (\<lambda>c. c \<noteq> sep) s)))
      else None)"
proof (cases "sep \<in> set s")
  case True
  let ?rest = "tl (dropWhile (\<lambda>c. c \<noteq> sep) s)"
  have "split sep s = takeWhile (\<lambda>c. c \<noteq> sep) s # split sep ?rest"
    using True split_unfold [of sep s] by simp
  moreover have "split sep ?rest = takeWhile (\<lambda>c. c \<noteq> sep) ?rest #
       (if sep \<in> set ?rest then split sep (tl (dropWhile (\<lambda>c. c \<noteq> sep) ?rest)) else [])"
    by (rule split_unfold)
  ultimately show ?thesis using True by (simp add: at_index_def)
next
  case False
  then show ?thesis using split_unfold [of sep s] by (simp add: at_index_def)
qed

lemma lower_char_at:
  "((case map_of (zip ''ABCDEFGHIJKLMNOPQRSTUVWXYZ'' ''abcdefghijklmnopqrstuvwxyz'') c of
       Some l \<Rightarrow> l | None \<Rightarrow> c) = CHR ''@'') = (c = CHR ''@'')"
  by simp

lemma toLowerCase_count: "count_list (toLowerCase v) CHR ''@'' = count_list v CHR ''@''"
  unfolding toLowerCase_def by (induction v) (simp_all only: list.map count_list.simps lower_char_at)

lemma toLowerCase_at: "(CHR ''@'' \<in> set (toLowerCase v)) = (CHR ''@'' \<in> set v)"
  using toLowerCase_count [of v] count_list_0_iff [of "toLowerCase v" "CHR ''@''"]
    count_list_0_iff [of v "CHR ''@''"] by simp

lemma toLowerCase_Nil: "(toLowerCase v = []) = (v = [])"
  by (simp add: toLowerCase_def)

lemma single_at:
  "count_list xs a \<le> 1 \<Longrightarrow> a \<notin> set (tl (dropWhile (\<lambda>c. c \<noteq> a) xs))"
  by (induction xs) (auto simp: count_list_0_iff)

lemma skippable_eq:
  "skippable emailCol row =
     (case row emailCol of
        None \<Rightarrow> False
      | Some v \<Rightarrow>
          v \<noteq> [] \<and> CHR ''@'' \<in> set v \<and>
          takeWhile (\<lambda>c. c \<noteq> CHR ''@'') (tl (dropWhile (\<lambda>c. c \<noteq> CHR ''@'') (toLowerCase v)))
            \<in> set commonDomains)"
proof (cases "row emailCol")
  case None
  then show ?thesis by (simp add: skippable_def)
next
  case (Some v)
  have nonempty: "[] \<notin> set commonDomains"
    by (simp add: commonDomains_def)
  show ?thesis
  proof (cases "CHR ''@'' \<in> set v")
    case True
    then have "at_index (split CHR ''@'' (toLowerCase v)) 1 =
        Some (takeWhile (\<lambda>c. c \<noteq> CHR ''@'') (tl (dropWhile (\<lambda>c. c \<noteq> CHR ''@'') (toLowerCase v))))"
      by (simp only: split_second toLowerCase_at if_True)
    with Some True nonempty show ?thesis
      by (auto simp add: skippable_def toLowerCase_Nil)
  next
    case False
    then have "at_index (split CHR ''@'' (toLowerCase v)) 1 = None"
      by (simp only: split_second toLowerCase_at if_False)
    with Some False show ?thesis
      by (simp add: skippable_def)
  qed
qed

lemma spec_agrees:
  assumes "row emailCol = Some v" and "count_list v CHR ''@'' \<le> 1"
  shows "skippable emailCol row = spec_skippable emailCol row"
proof -
  have "count_list (toLowerCase v) CHR ''@'' \<le> 1"
    using assms(2) by (simp only: toLowerCase_count)
  then have "CHR ''@'' \<notin> set (tl (dropWhile (\<lambda>c. c \<noteq> CHR ''@'') (toLowerCase v)))"
    by (rule single_at)
  then have tw: "takeWhile (\<lambda>c. c \<noteq> CHR ''@'') (tl (dropWhile (\<lambda>c. c \<noteq> CHR ''@'') (toLowerCase v)))
      = tl (dropWhile (\<lambda>c. c \<noteq> CHR ''@'') (toLowerCase v))"
    by auto
  have code: "skippable emailCol row =
      (v \<noteq> [] \<and> CHR ''@'' \<in> set v \<and>
       tl (dropWhile (\<lambda>c. c \<noteq> CHR ''@'') (toLowerCase v)) \<in> set commonDomains)"
    by (simp only: skippable_eq assms(1) option.case tw)
  have spec: "spec_skippable emailCol row =
      (v \<noteq> [] \<and> CHR ''@'' \<in> set v \<and>
       tl (dropWhile (\<lambda>c. c \<noteq> CHR ''@'') (toLowerCase v)) \<in> set commonDomains)"
  proof (cases "CHR ''@'' \<in> set v")
    case True
    then show ?thesis
      by (simp only: spec_skippable_def spec_domain_def toLowerCase_at assms(1) option.case
            if_True simp_thms)
  next
    case False
    then show ?thesis
      by (simp only: spec_skippable_def spec_domain_def toLowerCase_at assms(1) option.case
            if_False simp_thms)
  qed
  from code spec show ?thesis by (rule trans [OF _ sym])
qed

subsection \<open>Reading the response\<close>

lemma get_property_member:
  "get_property v key = (if v = None \<or> v = Some JNull then Inl TypeError else Inr (json_member v key))"
  by (cases "(v, key)" rule: get_property.cases) (simp_all add: json_member_def)

lemma truthy_not_undefined: "truthy v \<Longrightarrow> v \<noteq> None"
  by (cases v rule: truthy.cases) simp_all

lemma truthy_not_null: "truthy v \<Longrightarrow> v \<noteq> Some JNull"
  by (cases v rule: truthy.cases) simp_all

lemma convertResult_member:
  "convertResult gen selected result =
     (if result = JNull then Inl TypeError
      else if \<not> truthy (json_member (Some result) ''success'') then Inl (Error ''Invalid response format'')
      else if \<not> truthy (json_member (Some result) ''data'') then Inl (Error ''Invalid response format'')
      else if \<not> truthy (json_member (json_member (Some result) ''data'') ''fields'')
           then Inl (Error ''Invalid response format'')
      else (case json_member (json_member (Some result) ''data'') ''fields'' of
              Some (JArr ds) \<Rightarrow> Inr (map (convertField gen selected) ds)
            | _ \<Rightarrow> Inl TypeError))"
  by (simp add: convertResult_def get_property_member truthy_not_undefined truthy_not_null)

lemma payload_accepted_iff:
  "payload_accepted result =
     (truthy (json_member (Some result) ''success'')
      \<and> truthy (json_member (Some result) ''data'')
      \<and> (\<exists>ds. json_member (json_member (Some result) ''data'') ''fields'' = Some (JArr ds)))"
proof (cases "json_member (json_member (Some result) ''data'') ''fields''")
  case None
  then show ?thesis by (simp add: payload_accepted_def)
next
  case (Some v)
  then show ?thesis by (cases v) (simp_all add: payload_accepted_def)
qed


lemma convertResult_rejected:
  assumes "\<not> payload_accepted result"
  shows "\<exists>e. convertResult gen selected result = Inl e"
proof (cases "json_member (json_member (Some result) ''data'') ''fields''")
  case None
  then show ?thesis by (simp add: convertResult_member)
next
  case (Some v)
  show ?thesis
  proof (cases "\<exists>ds. v = JArr ds")
    case True
    with assms Some have "\<not> truthy (json_member (Some result) ''success'')
        \<or> \<not> truthy (json_member (Some result) ''data'')"
      unfolding payload_accepted_iff by blast
    then show ?thesis by (auto simp: convertResult_member)
  next
    case False
    then have "(case Some v of Some (JArr ds) \<Rightarrow> Inr (map (convertField gen selected) ds)
                | _ \<Rightarrow> Inl TypeError) = Inl TypeError"
      by (cases v) simp_all
    with Some show ?thesis by (simp add: convertResult_member)
  qed
qed

lemma convertedFields_failed:
  assumes "request_failed outcome"
  shows "\<exists>e. convertedFields gen selected outcome = Inl e"
proof (cases outcome)
  case FetchRejected
  then show ?thesis by (simp add: convertedFields_def)
next
  case (Response ok body)
  show ?thesis
  proof (cases "ok \<and> body \<noteq> None")
    case True
    then obtain result where b: "body = Some result" by blast
    with assms Response True have "\<not> payload_accepted result"
      by (simp add: request_failed_def)
    then obtain e where "convertResult gen selected result = Inl e"
      using convertResult_rejected by blast
    with Response True b show ?thesis by (simp add: convertedFields_def)
  next
    case False
    with Response show ?thesis by (auto simp: convertedFields_def)
  qed
qed


text \<open>A payload of the shape the specification names is one the handler accepts; the
  converse fails, since \<open>success\<close> need only be truthy.\<close>

lemma spec_shape_accepted:
  assumes "spec_payload_shape result"
  shows "payload_accepted result"
proof -
  from assms obtain ms where r: "result = JObj ms"
    by (cases result) (simp_all add: spec_payload_shape_def)
  from assms r have s: "map_of (rev ms) ''success'' = Some (JBool True)"
    by (auto simp: spec_payload_shape_def split: option.splits json.splits bool.splits)
  from assms r s obtain ds where d: "map_of (rev ms) ''data'' = Some (JObj ds)"
    by (auto simp: spec_payload_shape_def split: option.splits json.splits)
  from assms r s d obtain fs where f: "map_of (rev ds) ''fields'' = Some (JArr fs)"
    by (auto simp: spec_payload_shape_def split: option.splits json.splits)
  from r s d f show ?thesis
    by (simp add: payload_accepted_def json_member_def)
qed

section \<open>The cap of ten fields\<close>

text \<open>
  Claim C1. Whatever the sequence of events from the initial state (preset toggles,
  manual entries and accepted suggestions among them), the list of selected fields
  never has more than 10 members. Calling the add operation \<open>handleAddField\<close> on a list
  that already has 10 members changes nothing in the state except that the
  notification \<open>Maximum 10 fields allowed\<close> is emitted; in particular the list is
  unchanged.
\<close>

theorem selected_fields_capped:
  "length (selectedFields (run gen rows columns es init_state)) \<le> 10
   \<and> (10 \<le> length (selectedFields s) \<longrightarrow>
        handleAddField field s = s\<lparr>effects := effects s @ [ToastError ''Maximum 10 fields allowed'']\<rparr>
        \<and> selectedFields (handleAddField field s) = selectedFields s)"
proof -
  have "length (selectedFields init_state) \<le> 10"
    by (simp add: init_selectedFields)
  then have "length (selectedFields (run gen rows columns es init_state)) \<le> 10"
    by (rule length_selected_run)
  then show ?thesis by (simp add: handleAddField_def)
qed

text \<open>
  The theorem at work: the five remaining presets and two manual entries fill the list;
  an eleventh field is then refused with the warning.
\<close>

theorem selected_fields_capped_witness:
  "let s = run (\<lambda>d ns. d) [] [''email'']
             [SelectEmailColumn ''email'', ClickNext,
              ClickPreset 3, ClickPreset 4, ClickPreset 5, ClickPreset 6, ClickPreset 7,
              ToggleManualAdd, TypeCustomName ''Revenue'',
              TypeCustomDescription ''Annual revenue'', ClickAddField,
              ToggleManualAdd, TypeCustomName ''CEO'',
              TypeCustomDescription ''Chief executive'', ClickAddField]
             init_state;
       field = \<lparr>name = ''website'', displayName = ''Website'',
                description = ''The company website'', type = ''string'', required = False\<rparr>
   in length (selectedFields s) = 10
      \<and> handleAddField field s = s\<lparr>effects := effects s @ [ToastError ''Maximum 10 fields allowed'']\<rparr>
      \<and> selectedFields (handleAddField field s) = selectedFields s"
proof -
  let ?s = "run (\<lambda>d ns. d) [] [''email'']
             [SelectEmailColumn ''email'', ClickNext,
              ClickPreset 3, ClickPreset 4, ClickPreset 5, ClickPreset 6, ClickPreset 7,
              ToggleManualAdd, TypeCustomName ''Revenue'',
              TypeCustomDescription ''Annual revenue'', ClickAddField,
              ToggleManualAdd, TypeCustomName ''CEO'',
              TypeCustomDescription ''Chief executive'', ClickAddField]
             init_state"
  have full: "length (selectedFields ?s) = 10"
    by code_simp
  then have "10 \<le> length (selectedFields ?s)"
    by simp
  with selected_fields_capped [of _ _ _ _ ?s] full show ?thesis
    unfolding Let_def by blast
qed

section \<open>Distinct machine identifiers\<close>

text \<open>
  Claim C2. In every state the component reaches from its initial state, no two selected
  fields have the same \<open>name\<close>. The add operation \<open>handleAddField\<close>, which the preset
  buttons, the manual form and the suggestion cards all call, leaves the list as it is
  when a selected field already has the name of the new one. The manual form builds its
  field with the identifier \<open>generateVariableName\<close> returns for the entered name and the
  names currently selected; entering the same display name twice gives two selected
  fields with different identifiers, whenever the two identifiers the helper returns
  are not among the names it was given (which is what the helper is for) and the list
  has room for both.
\<close>

theorem selected_names_distinct:
  "distinct (map name (selectedFields (run gen rows columns es init_state)))
   \<and> (name field \<in> set (map name (selectedFields s)) \<longrightarrow>
        selectedFields (handleAddField field s) = selectedFields s)
   \<and> (n \<noteq> [] \<and> d \<noteq> [] \<longrightarrow>
        handleAddCustomField gen (s\<lparr>customField := \<lparr>cf_name = n, cf_description = d, cf_type = t\<rparr>\<rparr>) =
          (handleAddField
             \<lparr>name = gen n (map name (selectedFields s)), displayName = n, description = d,
              type = t, required = False\<rparr> s)
          \<lparr>customField := \<lparr>cf_name = [], cf_description = [], cf_type = ''string''\<rparr>,
           showManualAdd := False\<rparr>)
   \<and> (let id1 = gen n (map name (selectedFields s));
           id2 = gen n (map name (selectedFields s) @ [id1]);
           s1 = handleAddCustomField gen
                  (s\<lparr>customField := \<lparr>cf_name = n, cf_description = d, cf_type = t\<rparr>\<rparr>);
           s2 = handleAddCustomField gen
                  (s1\<lparr>customField := \<lparr>cf_name = n, cf_description = d, cf_type = t\<rparr>\<rparr>)
       in n \<noteq> [] \<and> d \<noteq> [] \<and> length (selectedFields s) + 2 \<le> 10
          \<and> id1 \<notin> set (map name (selectedFields s))
          \<and> id2 \<notin> set (map name (selectedFields s) @ [id1]) \<longrightarrow>
          selectedFields s2 =
            selectedFields s @
              [\<lparr>name = id1, displayName = n, description = d, type = t, required = False\<rparr>,
               \<lparr>name = id2, displayName = n, description = d, type = t, required = False\<rparr>]
          \<and> id1 \<noteq> id2)"
proof -
  have "distinct (map name (selectedFields init_state))"
    by (simp add: init_names)
  then have inv: "distinct (map name (selectedFields (run gen rows columns es init_state)))"
    by (rule distinct_selected_run)
  have dup: "name field \<in> set (map name (selectedFields s)) \<longrightarrow>
        selectedFields (handleAddField field s) = selectedFields s"
    by (simp add: selectedFields_handleAddField)
  have manual: "n \<noteq> [] \<and> d \<noteq> [] \<longrightarrow>
        handleAddCustomField gen (s\<lparr>customField := \<lparr>cf_name = n, cf_description = d, cf_type = t\<rparr>\<rparr>) =
          (handleAddField
             \<lparr>name = gen n (map name (selectedFields s)), displayName = n, description = d,
              type = t, required = False\<rparr> s)
          \<lparr>customField := \<lparr>cf_name = [], cf_description = [], cf_type = ''string''\<rparr>,
           showManualAdd := False\<rparr>"
    by (simp add: handleAddCustomField_def handleAddField_def Let_def)
  have twice: "(let id1 = gen n (map name (selectedFields s));
           id2 = gen n (map name (selectedFields s) @ [id1]);
           s1 = handleAddCustomField gen
                  (s\<lparr>customField := \<lparr>cf_name = n, cf_description = d, cf_type = t\<rparr>\<rparr>);
           s2 = handleAddCustomField gen
                  (s1\<lparr>customField := \<lparr>cf_name = n, cf_description = d, cf_type = t\<rparr>\<rparr>)
       in n \<noteq> [] \<and> d \<noteq> [] \<and> length (selectedFields s) + 2 \<le> 10
          \<and> id1 \<notin> set (map name (selectedFields s))
          \<and> id2 \<notin> set (map name (selectedFields s) @ [id1]) \<longrightarrow>
          selectedFields s2 =
            selectedFields s @
              [\<lparr>name = id1, displayName = n, description = d, type = t, required = False\<rparr>,
               \<lparr>name = id2, displayName = n, description = d, type = t, required = False\<rparr>]
          \<and> id1 \<noteq> id2)"
    by (auto simp: Let_def handleAddCustomField_def selectedFields_handleAddField)
  from inv dup manual twice show ?thesis by blast
qed

text \<open>\<open>Revenue\<close> entered twice into the initial state, with a helper that appends \<open>2\<close> to
  a name already taken.\<close>

theorem selected_names_distinct_witness:
  "let gen = (\<lambda>d ns. if d \<in> set ns then d @ ''2'' else d);
       form = \<lparr>cf_name = ''Revenue'', cf_description = ''Annual revenue'', cf_type = ''number''\<rparr>;
       s1 = handleAddCustomField gen (init_state\<lparr>customField := form\<rparr>);
       s2 = handleAddCustomField gen (s1\<lparr>customField := form\<rparr>)
   in map name (selectedFields s2) =
        [''companyName'', ''companyDescription'', ''industry'', ''Revenue'', ''Revenue2'']
      \<and> name (PRESET_FIELDS ! 0) \<in> set (map name (selectedFields init_state))
      \<and> selectedFields (handleAddField (PRESET_FIELDS ! 0) init_state) = selectedFields init_state"
proof -
  let ?gen = "\<lambda>d ns. if d \<in> set ns then d @ ''2'' else (d :: string)"
  have names: "map name (selectedFields init_state) = [''companyName'', ''companyDescription'', ''industry'']"
    by (rule init_names)
  have dup: "name (PRESET_FIELDS ! 0) \<in> set (map name (selectedFields init_state))"
    by (simp add: names PRESET_FIELDS_def)
  have hyps: "''Revenue'' \<noteq> [] \<and> ''Annual revenue'' \<noteq> [] \<and> length (selectedFields init_state) + 2 \<le> 10
      \<and> ?gen ''Revenue'' (map name (selectedFields init_state)) \<notin> set (map name (selectedFields init_state))
      \<and> ?gen ''Revenue'' (map name (selectedFields init_state) @ [?gen ''Revenue'' (map name (selectedFields init_state))])
          \<notin> set (map name (selectedFields init_state) @ [?gen ''Revenue'' (map name (selectedFields init_state))])"
    by (simp add: names init_length)
  note inst = selected_names_distinct [of ?gen "[]" "[]" "[]" "PRESET_FIELDS ! 0" init_state
        "''Revenue''" "''Annual revenue''" "''number''", unfolded Let_def]
  from inst dup have a: "selectedFields (handleAddField (PRESET_FIELDS ! 0) init_state) = selectedFields init_state"
    by blast
  from inst hyps have b: "selectedFields
      (handleAddCustomField ?gen
        ((handleAddCustomField ?gen
           (init_state\<lparr>customField := \<lparr>cf_name = ''Revenue'', cf_description = ''Annual revenue'', cf_type = ''number''\<rparr>\<rparr>))
         \<lparr>customField := \<lparr>cf_name = ''Revenue'', cf_description = ''Annual revenue'', cf_type = ''number''\<rparr>\<rparr>)) =
      selectedFields init_state @
        [\<lparr>name = ?gen ''Revenue'' (map name (selectedFields init_state)), displayName = ''Revenue'',
          description = ''Annual revenue'', type = ''number'', required = False\<rparr>,
         \<lparr>name = ?gen ''Revenue'' (map name (selectedFields init_state) @
                    [?gen ''Revenue'' (map name (selectedFields init_state))]),
          displayName = ''Revenue'', description = ''Annual revenue'', type = ''number'',
          required = False\<rparr>]"
    by blast
  show ?thesis
    unfolding Let_def using a b dup by (simp add: names)
qed

section \<open>Manual entry is validated first\<close>

text \<open>
  Claim C7. When the name or the description of the manual form is empty,
  \<open>handleAddCustomField\<close> changes nothing in the state besides emitting the notification
  \<open>Please fill in all fields\<close>: the selected fields are unchanged, and the form is
  neither cleared nor closed.
\<close>

theorem manual_validation:
  "cf_name (customField s) = [] \<or> cf_description (customField s) = [] \<Longrightarrow>
     handleAddCustomField gen s = s\<lparr>effects := effects s @ [ToastError ''Please fill in all fields'']\<rparr>
     \<and> selectedFields (handleAddCustomField gen s) = selectedFields s
     \<and> customField (handleAddCustomField gen s) = customField s
     \<and> showManualAdd (handleAddCustomField gen s) = showManualAdd s"
  by (auto simp: handleAddCustomField_def)

text \<open>A form with a name and no description, in the initial state.\<close>

theorem manual_validation_witness:
  "let s = init_state\<lparr>showManualAdd := True,
             customField := \<lparr>cf_name = ''Revenue'', cf_description = [], cf_type = ''number''\<rparr>\<rparr>
   in handleAddCustomField (\<lambda>d ns. d) s = s\<lparr>effects := [ToastError ''Please fill in all fields'']\<rparr>
      \<and> length (selectedFields (handleAddCustomField (\<lambda>d ns. d) s)) = 3
      \<and> customField (handleAddCustomField (\<lambda>d ns. d) s) =
           \<lparr>cf_name = ''Revenue'', cf_description = [], cf_type = ''number''\<rparr>"
proof -
  let ?s = "init_state\<lparr>showManualAdd := True,
             customField := \<lparr>cf_name = ''Revenue'', cf_description = [], cf_type = ''number''\<rparr>\<rparr>"
  have h: "cf_name (customField ?s) = [] \<or> cf_description (customField ?s) = []" by simp
  have e: "effects ?s = []" by (simp add: init_state_def)
  have l: "length (selectedFields ?s) = 3" by (simp add: init_length)
  show ?thesis
    using manual_validation [OF h, of "\<lambda>d ns. d"] e l by (simp add: Let_def)
qed

section \<open>Starting the enrichment\<close>

text \<open>
  Claim C6. The \<open>Start Enrichment\<close> button is enabled exactly when at least one field
  is selected. Clicking it on step 2 with a field selected calls \<open>onStartEnrichment\<close>
  once, with the current email column and the current list of selected fields, and
  changes nothing else; with no field selected the click does nothing.
\<close>

theorem start_enrichment_control:
  "(\<not> startEnrichment_disabled s) = (1 \<le> length (selectedFields s))
   \<and> (step s = Step2 \<and> selectedFields s \<noteq> [] \<longrightarrow>
        fire gen rows columns ClickStartEnrichment s =
          s\<lparr>effects := effects s @ [OnStartEnrichment (emailColumn s) (selectedFields s)]\<rparr>)
   \<and> (step s = Step2 \<and> selectedFields s = [] \<longrightarrow>
        fire gen rows columns ClickStartEnrichment s = s)"
  by (cases "selectedFields s")
     (simp_all add: startEnrichment_disabled_def startEnrichment_onClick_def)

text \<open>Email column \<open>email\<close> and two selected fields: one call, with both fields.\<close>

theorem start_enrichment_control_witness:
  "let f1 = PRESET_FIELDS ! 3; f2 = PRESET_FIELDS ! 4;
       s = init_state\<lparr>step := Step2, emailColumn := ''email'', selectedFields := [f1, f2]\<rparr>
   in \<not> startEnrichment_disabled s
      \<and> effects (fire (\<lambda>d ns. d) [] [''email''] ClickStartEnrichment s) = [OnStartEnrichment ''email'' [f1, f2]]
      \<and> fire (\<lambda>d ns. d) [] [''email''] ClickStartEnrichment (s\<lparr>selectedFields := []\<rparr>) = s\<lparr>selectedFields := []\<rparr>"
proof -
  let ?s = "init_state\<lparr>step := Step2, emailColumn := ''email'',
              selectedFields := [PRESET_FIELDS ! 3, PRESET_FIELDS ! 4]\<rparr>"
  have a: "step ?s = Step2 \<and> selectedFields ?s \<noteq> []" by simp
  have b: "step (?s\<lparr>selectedFields := []\<rparr>) = Step2 \<and> selectedFields (?s\<lparr>selectedFields := []\<rparr>) = []" by simp
  have c: "effects ?s = []" by (simp add: init_state_def)
  show ?thesis
    using start_enrichment_control [of ?s "\<lambda>d ns. d" "[]" "[''email'']"]
      start_enrichment_control [of "?s\<lparr>selectedFields := []\<rparr>" "\<lambda>d ns. d" "[]" "[''email'']"] a b c
    by (simp add: Let_def startEnrichment_disabled_def startEnrichment_onClick_def)
qed

section \<open>The detector pre-fills and does not advance\<close>

text \<open>
  Claim C8. When the detector returns a non-empty column name with a confidence above
  50, the effect run on the initial state sets the email column to that name and the
  wizard is still on step 1; with a confidence of at most 50 the email column is still
  empty. The effect never changes the step, and the only event that takes the wizard
  from step 1 to step 2 is a click on \<open>Next\<close>, with an email column chosen.
\<close>

theorem detector_prefill:
  "(columnName d = Some col \<and> col \<noteq> [] \<and> confidence d > 50 \<longrightarrow>
      emailColumn (fire gen rows columns (DetectorEffect d) init_state) = col
      \<and> step (fire gen rows columns (DetectorEffect d) init_state) = Step1)
   \<and> (confidence d \<le> 50 \<longrightarrow>
        emailColumn (fire gen rows columns (DetectorEffect d) init_state) = [])
   \<and> step (fire gen rows columns (DetectorEffect d) s) = step s
   \<and> (step s = Step1 \<and> step (fire gen rows columns e s) = Step2 \<longrightarrow>
        e = ClickNext \<and> emailColumn s \<noteq> [])"
proof -
  have adv: "step s = Step1 \<and> step (fire gen rows columns e s) = Step2 \<longrightarrow>
        e = ClickNext \<and> emailColumn s \<noteq> []"
    by (cases e)
       (auto simp: detectEffect_def copyEmail_def Let_def selectEmailColumn_def clickChange_def
          handleGenerateFields_settle_def split: option.splits sum.splits if_splits)
  have "step init_state = Step1" "emailColumn init_state = []"
    by (simp_all add: init_state_def)
  then show ?thesis using adv
    by (auto simp: detectEffect_def split: option.splits)
qed

text \<open>A detection of \<open>email\<close> at confidence 80 and at confidence 50, and the click that
  advances.\<close>

theorem detector_prefill_witness:
  "emailColumn (fire (\<lambda>d ns. d) [] [''email''] (DetectorEffect \<lparr>columnName = Some ''email'', confidence = 80\<rparr>) init_state) = ''email''
   \<and> step (fire (\<lambda>d ns. d) [] [''email''] (DetectorEffect \<lparr>columnName = Some ''email'', confidence = 80\<rparr>) init_state) = Step1
   \<and> emailColumn (fire (\<lambda>d ns. d) [] [''email''] (DetectorEffect \<lparr>columnName = Some ''email'', confidence = 50\<rparr>) init_state) = []
   \<and> step (fire (\<lambda>d ns. d) [] [''email''] ClickNext (init_state\<lparr>emailColumn := ''email''\<rparr>)) = Step2"
proof -
  have s1: "step (init_state\<lparr>emailColumn := ''email''\<rparr>) = Step1" by (simp add: init_state_def)
  show ?thesis
    using detector_prefill [of "\<lparr>columnName = Some ''email'', confidence = 80\<rparr>" "''email''" "\<lambda>d ns. d" "[]" "[''email'']" init_state ClickNext]
      detector_prefill [of "\<lparr>columnName = Some ''email'', confidence = 50\<rparr>" "''email''" "\<lambda>d ns. d" "[]" "[''email'']" "init_state\<lparr>emailColumn := ''email''\<rparr>" ClickNext]
      s1
    by simp
qed

section \<open>The initial selection\<close>

text \<open>
  Claim C10. In the initial state the list of selected fields is not empty: it holds
  exactly the first three presets, named \<open>companyName\<close>, \<open>companyDescription\<close> and
  \<open>industry\<close>. The start button is therefore enabled, and a user who only chooses an
  email column, clicks \<open>Next\<close> and then \<open>Start Enrichment\<close> starts the enrichment with
  these three fields.
\<close>

theorem initial_selection:
  "selectedFields init_state = [PRESET_FIELDS ! 0, PRESET_FIELDS ! 1, PRESET_FIELDS ! 2]
   \<and> map name (selectedFields init_state) = [''companyName'', ''companyDescription'', ''industry'']
   \<and> selectedFields init_state \<noteq> []
   \<and> \<not> startEnrichment_disabled init_state
   \<and> (col \<in> set columns \<and> col \<noteq> [] \<longrightarrow>
        effects (run gen rows columns [SelectEmailColumn col, ClickNext, ClickStartEnrichment] init_state)
          = [OnStartEnrichment col (selectedFields init_state)])"
proof -
  have sel: "selectedFields init_state = [PRESET_FIELDS ! 0, PRESET_FIELDS ! 1, PRESET_FIELDS ! 2]"
    by (simp add: init_state_def PRESET_FIELDS_def)
  have en: "\<not> startEnrichment_disabled init_state"
    by (simp add: startEnrichment_disabled_def init_length)
  have go: "col \<in> set columns \<and> col \<noteq> [] \<longrightarrow>
        effects (run gen rows columns [SelectEmailColumn col, ClickNext, ClickStartEnrichment] init_state)
          = [OnStartEnrichment col (selectedFields init_state)]"
    by (simp add: run_def selectEmailColumn_def startEnrichment_onClick_def
          startEnrichment_disabled_def init_state_def)
  from sel en go init_names show ?thesis by simp
qed

text \<open>The three clicks, with the column \<open>email\<close>.\<close>

theorem initial_selection_witness:
  "effects (run (\<lambda>d ns. d) [] [''email''] [SelectEmailColumn ''email'', ClickNext, ClickStartEnrichment] init_state)
     = [OnStartEnrichment ''email'' [PRESET_FIELDS ! 0, PRESET_FIELDS ! 1, PRESET_FIELDS ! 2]]"
  using initial_selection [of "''email''" "[''email'']" "\<lambda>d ns. d" "[]"] by simp

section \<open>Accepting and rejecting a suggestion\<close>

text \<open>
  Claim C3, as the code has it. On step 2, \<open>Accept\<close> on the suggestion card \<open>idx\<close> always
  removes that suggestion from the list of suggestions. The suggestion is appended to
  the selected fields when fewer than 10 fields are selected and none of them has its
  name; otherwise the selected fields are unchanged, and with 10 fields selected the
  notification \<open>Maximum 10 fields allowed\<close> is emitted. A list of at most 10 fields stays
  at most 10 long. \<open>Reject\<close> removes the suggestion and leaves the selected fields
  unchanged.
\<close>

theorem accept_reject_suggested:
  "step s = Step2 \<and> idx < length (suggestedFields s) \<Longrightarrow>
     suggestedFields (fire gen rows columns (ClickAccept idx) s) =
       take idx (suggestedFields s) @ drop (Suc idx) (suggestedFields s)
     \<and> selectedFields (fire gen rows columns (ClickAccept idx) s) =
         (if length (selectedFields s) < 10
             \<and> name (suggestedFields s ! idx) \<notin> set (map name (selectedFields s))
          then selectedFields s @ [suggestedFields s ! idx]
          else selectedFields s)
     \<and> (length (selectedFields s) \<le> 10 \<longrightarrow>
          length (selectedFields (fire gen rows columns (ClickAccept idx) s)) \<le> 10)
     \<and> (10 \<le> length (selectedFields s) \<longrightarrow>
          effects (fire gen rows columns (ClickAccept idx) s) =
            effects s @ [ToastError ''Maximum 10 fields allowed''])
     \<and> suggestedFields (fire gen rows columns (ClickReject idx) s) =
         take idx (suggestedFields s) @ drop (Suc idx) (suggestedFields s)
     \<and> selectedFields (fire gen rows columns (ClickReject idx) s) = selectedFields s"
proof -
  assume guard: "step s = Step2 \<and> idx < length (suggestedFields s)"
  have toast: "10 \<le> length (selectedFields s) \<longrightarrow>
        effects (handleAddField (suggestedFields s ! idx) s) =
          effects s @ [ToastError ''Maximum 10 fields allowed'']"
    by (simp add: handleAddField_def)
  have same: "suggestedFields (handleAddField f s) = suggestedFields s" for f
    by (simp add: handleAddField_def)
  from guard toast same show ?thesis
    by (simp add: acceptSuggested_def rejectSuggested_def filter_not_index_eq
          selectedFields_handleAddField)
qed

text \<open>Two suggestions in the initial selection: the first is accepted, the second
  rejected.\<close>

theorem accept_reject_suggested_witness:
  "let f1 = \<lparr>name = ''ceoName'', displayName = ''CEO Name'',
             description = ''Name of the chief executive'', type = ''string'', required = False\<rparr>;
       f2 = \<lparr>name = ''mission'', displayName = ''Mission'',
             description = ''The mission statement'', type = ''string'', required = False\<rparr>;
       s = init_state\<lparr>step := Step2, emailColumn := ''email'', suggestedFields := [f1, f2]\<rparr>
   in suggestedFields (fire (\<lambda>d ns. d) [] [''email''] (ClickAccept 0) s) = [f2]
      \<and> selectedFields (fire (\<lambda>d ns. d) [] [''email''] (ClickAccept 0) s) = selectedFields init_state @ [f1]
      \<and> suggestedFields (fire (\<lambda>d ns. d) [] [''email''] (ClickReject 1) s) = [f1]
      \<and> selectedFields (fire (\<lambda>d ns. d) [] [''email''] (ClickReject 1) s) = selectedFields init_state"
proof -
  let ?f1 = "\<lparr>name = ''ceoName'', displayName = ''CEO Name'',
             description = ''Name of the chief executive'', type = ''string'', required = False\<rparr>"
  let ?f2 = "\<lparr>name = ''mission'', displayName = ''Mission'',
             description = ''The mission statement'', type = ''string'', required = False\<rparr>"
  let ?s = "init_state\<lparr>step := Step2, emailColumn := ''email'', suggestedFields := [?f1, ?f2]\<rparr>"
  have g0: "step ?s = Step2 \<and> 0 < length (suggestedFields ?s)" by simp
  have g1: "step ?s = Step2 \<and> 1 < length (suggestedFields ?s)" by simp
  have sel: "selectedFields ?s = selectedFields init_state" by simp
  have room: "length (selectedFields ?s) < 10
      \<and> name (suggestedFields ?s ! 0) \<notin> set (map name (selectedFields ?s))"
    by (simp add: init_length init_names)
  note a = accept_reject_suggested [OF g0, of "\<lambda>d ns. d" "[]" "[''email'']"]
  note r = accept_reject_suggested [OF g1, of "\<lambda>d ns. d" "[]" "[''email'']"]
  from a have a1: "suggestedFields (fire (\<lambda>d ns. d) [] [''email''] (ClickAccept 0) ?s) =
       take 0 (suggestedFields ?s) @ drop (Suc 0) (suggestedFields ?s)"
    by blast
  from a room have a2: "selectedFields (fire (\<lambda>d ns. d) [] [''email''] (ClickAccept 0) ?s) =
       selectedFields ?s @ [suggestedFields ?s ! 0]"
    by presburger
  from r have r1: "suggestedFields (fire (\<lambda>d ns. d) [] [''email''] (ClickReject 1) ?s) =
       take 1 (suggestedFields ?s) @ drop (Suc 1) (suggestedFields ?s)"
    by blast
  from r have r2: "selectedFields (fire (\<lambda>d ns. d) [] [''email''] (ClickReject 1) ?s) = selectedFields ?s"
    by blast
  show ?thesis
    unfolding Let_def a1 a2 r1 r2 by simp
qed

text \<open>
  Claim C3 as stated does not hold in every state: after a generated suggestion, the
  five remaining presets and two manual entries, ten fields are selected; accepting the
  suggestion then removes it from the suggestions without adding it to the selection.
\<close>

theorem accept_at_capacity_counterexample:
  "let field = \<lparr>name = ''CEO Name'', displayName = ''CEO Name'',
                description = ''Name of the chief executive'', type = ''string'', required = False\<rparr>;
       s = run (\<lambda>d ns. d) [] [''email'']
             [SelectEmailColumn ''email'', ClickNext, ToggleNaturalLanguage,
              TypeNaturalLanguage ''CEO name'', ClickGenerateFields,
              RequestSettled 0 (Response True (Some (JObj
                [(''success'', JBool True),
                 (''data'', JObj [(''fields'',
                    JArr [\<lparr>api_displayName = ''CEO Name'',
                           api_description = ''Name of the chief executive'',
                           api_type = ''text''\<rparr>])])]))),
              ClickPreset 3, ClickPreset 4, ClickPreset 5, ClickPreset 6, ClickPreset 7,
              ToggleManualAdd, TypeCustomName ''Revenue'',
              TypeCustomDescription ''Annual revenue'', ClickAddField,
              ToggleManualAdd, TypeCustomName ''Website'',
              TypeCustomDescription ''The company website'', ClickAddField]
             init_state;
       s' = fire (\<lambda>d ns. d) [] [''email''] (ClickAccept 0) s
   in step s = Step2
      \<and> suggestedFields s = [field]
      \<and> length (selectedFields s) = 10
      \<and> suggestedFields s' = []
      \<and> selectedFields s' = selectedFields s
      \<and> field \<notin> set (selectedFields s')"
  by code_simp

section \<open>A failed generation\<close>

text \<open>
  Claim C4, as the code has it. When the request fails (the fetch is rejected, the
  response is not OK, the body is not JSON, or in the payload \<open>success\<close>, \<open>data\<close> or
  \<open>data.fields\<close> is missing or falsy, or \<open>data.fields\<close> is not an array), the handler
  logs the error, emits the notification \<open>Failed to generate fields. Please try again.\<close>,
  resets \<open>isGenerating\<close> and changes nothing else. For the whole operation, from the click
  on \<open>Generate Fields\<close> to the settling of the request: one request is sent and no
  second one, and the selected fields, the suggestions, the prompt, the visibility of
  both panels and \<open>isGenerating\<close> are as before the click.
\<close>

theorem generation_failure_preserves_state:
  "request_failed outcome \<Longrightarrow>
     handleGenerateFields_settle gen selected outcome s =
       s\<lparr>effects := effects s @
            [ConsoleError ''Error generating fields:'',
             ToastError ''Failed to generate fields. Please try again.''],
         isGenerating := False\<rparr>
     \<and> (step s = Step2 \<and> showNaturalLanguage s \<and> trim (naturalLanguageInput s) \<noteq> []
          \<and> \<not> isGenerating s \<longrightarrow>
         (let s' = run gen rows columns
                     [ClickGenerateFields, RequestSettled (length (inflight s)) outcome] s
          in effects s' = effects s @
                 [FetchPost ''/api/generate-fields'' (naturalLanguageInput s),
                  ConsoleError ''Error generating fields:'',
                  ToastError ''Failed to generate fields. Please try again.'']
             \<and> selectedFields s' = selectedFields s
             \<and> suggestedFields s' = suggestedFields s
             \<and> naturalLanguageInput s' = naturalLanguageInput s
             \<and> showNaturalLanguage s' = showNaturalLanguage s
             \<and> showManualAdd s' = showManualAdd s
             \<and> isGenerating s' = isGenerating s
             \<and> inflight s' = inflight s))"
proof -
  assume "request_failed outcome"
  then have fail: "\<exists>e. convertedFields gen sel outcome = Inl e" for sel
    by (rule convertedFields_failed)
  have settle: "handleGenerateFields_settle gen sel outcome t =
       t\<lparr>effects := effects t @
            [ConsoleError ''Error generating fields:'',
             ToastError ''Failed to generate fields. Please try again.''],
         isGenerating := False\<rparr>" for sel t
    using fail [of sel] by (auto simp: handleGenerateFields_settle_def)
  have whole: "step s = Step2 \<and> showNaturalLanguage s \<and> trim (naturalLanguageInput s) \<noteq> []
          \<and> \<not> isGenerating s \<longrightarrow>
         (let s' = run gen rows columns
                     [ClickGenerateFields, RequestSettled (length (inflight s)) outcome] s
          in effects s' = effects s @
                 [FetchPost ''/api/generate-fields'' (naturalLanguageInput s),
                  ConsoleError ''Error generating fields:'',
                  ToastError ''Failed to generate fields. Please try again.'']
             \<and> selectedFields s' = selectedFields s
             \<and> suggestedFields s' = suggestedFields s
             \<and> naturalLanguageInput s' = naturalLanguageInput s
             \<and> showNaturalLanguage s' = showNaturalLanguage s
             \<and> showManualAdd s' = showManualAdd s
             \<and> isGenerating s' = isGenerating s
             \<and> inflight s' = inflight s)"
    by (simp add: run_two Let_def handleGenerateFields_request_def settle filter_not_index_eq)
  from settle [of selected s] whole show ?thesis by blast
qed

text \<open>The prompt \<open>CEO name\<close> and the payload \<open>{success: false}\<close>.\<close>

theorem generation_failure_preserves_state_witness:
  "let s = init_state\<lparr>step := Step2, emailColumn := ''email'', showNaturalLanguage := True,
                      naturalLanguageInput := ''CEO name''\<rparr>;
       s' = run (\<lambda>d ns. d) [] [''email'']
              [ClickGenerateFields,
               RequestSettled 0 (Response True (Some (JObj [(''success'', JBool False)])))] s
   in effects s' =
        [FetchPost ''/api/generate-fields'' ''CEO name'',
         ConsoleError ''Error generating fields:'',
         ToastError ''Failed to generate fields. Please try again.'']
      \<and> selectedFields s' = selectedFields s
      \<and> suggestedFields s' = []
      \<and> naturalLanguageInput s' = ''CEO name''
      \<and> showNaturalLanguage s'"
proof -
  let ?s = "init_state\<lparr>step := Step2, emailColumn := ''email'', showNaturalLanguage := True,
                      naturalLanguageInput := ''CEO name''\<rparr>"
  let ?o = "Response True (Some (JObj [(''success'', JBool False)]))"
  have failed: "request_failed ?o"
    by (simp add: request_failed_def payload_accepted_def json_member_def)
  have pre: "step ?s = Step2 \<and> showNaturalLanguage ?s \<and> trim (naturalLanguageInput ?s) \<noteq> []
      \<and> \<not> isGenerating ?s"
    by (simp add: init_state_def trim_def isWhitespace_def)
  have start: "effects ?s = [] \<and> inflight ?s = [] \<and> suggestedFields ?s = []
      \<and> naturalLanguageInput ?s = ''CEO name''"
    by (simp add: init_state_def)
  from generation_failure_preserves_state [OF failed, of "\<lambda>d ns. d" "[]" ?s "[]" "[''email'']"] pre
  have "let s' = run (\<lambda>d ns. d) [] [''email'']
                   [ClickGenerateFields, RequestSettled (length (inflight ?s)) ?o] ?s
        in effects s' = effects ?s @
                 [FetchPost ''/api/generate-fields'' (naturalLanguageInput ?s),
                  ConsoleError ''Error generating fields:'',
                  ToastError ''Failed to generate fields. Please try again.'']
             \<and> selectedFields s' = selectedFields ?s
             \<and> suggestedFields s' = suggestedFields ?s
             \<and> naturalLanguageInput s' = naturalLanguageInput ?s
             \<and> showNaturalLanguage s' = showNaturalLanguage ?s
             \<and> showManualAdd s' = showManualAdd ?s
             \<and> isGenerating s' = isGenerating ?s
             \<and> inflight s' = inflight ?s"
    by blast
  with start pre show ?thesis
    unfolding Let_def by (simp del: fire.simps)
qed

text \<open>
  Claim C4 as stated does not hold for every payload that is not of the shape
  \<open>{success: true, data: {fields: [...]}}\<close>: the handler tests \<open>success\<close> for truthiness
  only, so the payload \<open>{success: 1, data: {fields: [...]}}\<close> is taken for a success.
  No notification is emitted, the suggestions are replaced, the prompt is cleared and
  the panel is closed.
\<close>

theorem generation_failure_counterexample:
  "let result = JObj [(''success'', JNum 1),
                      (''data'', JObj [(''fields'',
                          JArr [\<lparr>api_displayName = ''CEO Name'',
                                 api_description = ''Name of the chief executive'',
                                 api_type = ''text''\<rparr>])])];
       s = run (\<lambda>d ns. d) [] [''email'']
             [SelectEmailColumn ''email'', ClickNext, ToggleNaturalLanguage,
              TypeNaturalLanguage ''CEO name'', ClickGenerateFields] init_state;
       s' = fire (\<lambda>d ns. d) [] [''email''] (RequestSettled 0 (Response True (Some result))) s
   in \<not> spec_payload_shape result
      \<and> effects s' = effects s
      \<and> suggestedFields s = []
      \<and> suggestedFields s' =
           [\<lparr>name = ''CEO Name'', displayName = ''CEO Name'',
             description = ''Name of the chief executive'', type = ''string'', required = False\<rparr>]
      \<and> naturalLanguageInput s = ''CEO name''
      \<and> naturalLanguageInput s' = []
      \<and> showNaturalLanguage s
      \<and> \<not> showNaturalLanguage s'"
  by (simp add: Let_def spec_payload_shape_def run_def selectEmailColumn_def init_state_def
        trim_def isWhitespace_def handleGenerateFields_request_def handleGenerateFields_settle_def
        filter_not_index_def convertedFields_def convertResult_def convertField_def)

section \<open>Converting the generated fields\<close>




section \<open>The skip warning\<close>

text \<open>
  Claim C9, as the code has it. On step 1 with an email column chosen, the warning shows
  the number of rows that \<open>skippable\<close> accepts, and no warning is shown when that number
  is 0. A row is accepted exactly when its value in the email column exists, is not
  empty, contains an \<open>@\<close>, and the piece of the lowercased value between its first \<open>@\<close>
  and its second \<open>@\<close> (or its end, when there is no second) is one of the six providers.
  For a value with at most one \<open>@\<close> this is the wording of the specification. The two
  rows \<open>a@gmail.com\<close> and \<open>b@acme.com\<close> give the count 1.
\<close>

theorem skip_warning_count:
  "skipWarning rows s =
     (if step s = Step1 \<and> emailColumn s \<noteq> []
         \<and> 0 < length (filter (skippable (emailColumn s)) rows)
      then Some (length (filter (skippable (emailColumn s)) rows))
      else None)
   \<and> skippable emailCol row =
       (case row emailCol of
          None \<Rightarrow> False
        | Some v \<Rightarrow>
            v \<noteq> [] \<and> CHR ''@'' \<in> set v \<and>
            takeWhile (\<lambda>c. c \<noteq> CHR ''@'')
              (tl (dropWhile (\<lambda>c. c \<noteq> CHR ''@'') (toLowerCase v))) \<in> set commonDomains)
   \<and> set commonDomains =
       {''gmail.com'', ''yahoo.com'', ''hotmail.com'', ''outlook.com'', ''aol.com'', ''icloud.com''}
   \<and> (row emailCol = Some v \<and> count_list v CHR ''@'' \<le> 1 \<longrightarrow>
        skippable emailCol row = spec_skippable emailCol row)
   \<and> skipWarning [[''email'' \<mapsto> ''a@gmail.com''], [''email'' \<mapsto> ''b@acme.com'']]
        (init_state\<lparr>emailColumn := ''email''\<rparr>) = Some 1"
proof -
  have warn: "skipWarning rows s =
     (if step s = Step1 \<and> emailColumn s \<noteq> []
         \<and> 0 < length (filter (skippable (emailColumn s)) rows)
      then Some (length (filter (skippable (emailColumn s)) rows))
      else None)"
    by (simp add: skipWarning_def skippableEmails_def)
  have doms: "set commonDomains =
       {''gmail.com'', ''yahoo.com'', ''hotmail.com'', ''outlook.com'', ''aol.com'', ''icloud.com''}"
    by (simp add: commonDomains_def)
  have ex: "skipWarning [[''email'' \<mapsto> ''a@gmail.com''], [''email'' \<mapsto> ''b@acme.com'']]
        (init_state\<lparr>emailColumn := ''email''\<rparr>) = Some 1"
    by (simp add: skipWarning_def skippableEmails_def skippable_def at_index_def toLowerCase_def
          commonDomains_def init_state_def)
  have agree: "row emailCol = Some v \<and> count_list v CHR ''@'' \<le> 1 \<longrightarrow>
        skippable emailCol row = spec_skippable emailCol row"
    using spec_agrees [of row emailCol v] by (intro impI) (elim conjE)
  show ?thesis
    by (intro conjI) (rule warn, rule skippable_eq, rule doms, rule agree, rule ex)
qed

text \<open>One row of a provider in mixed case, one row of another domain, and one row
  without the email column.\<close>

theorem skip_warning_count_witness:
  "skippable ''email'' [''email'' \<mapsto> ''A@Gmail.com'']
   \<and> spec_skippable ''email'' [''email'' \<mapsto> ''A@Gmail.com'']
   \<and> \<not> skippable ''email'' [''email'' \<mapsto> ''b@acme.com'']
   \<and> \<not> skippable ''email'' [''name'' \<mapsto> ''Ann'']"
proof -
  have one: "[''email'' \<mapsto> ''A@Gmail.com''] ''email'' = Some ''A@Gmail.com''
      \<and> count_list ''A@Gmail.com'' CHR ''@'' \<le> 1"
    by simp
  have spec: "spec_skippable ''email'' [''email'' \<mapsto> ''A@Gmail.com'']"
    by (simp add: spec_skippable_def spec_domain_def toLowerCase_def commonDomains_def)
  have other: "\<not> skippable ''email'' [''email'' \<mapsto> ''b@acme.com'']
      \<and> \<not> skippable ''email'' [''name'' \<mapsto> ''Ann'']"
    by (simp add: skippable_def at_index_def toLowerCase_def commonDomains_def)
  from skip_warning_count [of _ _ "''email''" "[''email'' \<mapsto> ''A@Gmail.com'']" "''A@Gmail.com''"] one
  have "skippable ''email'' [''email'' \<mapsto> ''A@Gmail.com''] =
      spec_skippable ''email'' [''email'' \<mapsto> ''A@Gmail.com'']"
    by blast
  with spec other show ?thesis by blast
qed

text \<open>
  Claim C9 as stated does not hold for a value with two \<open>@\<close>: split at its first \<open>@\<close>,
  \<open>a@gmail.com@x\<close> has the domain \<open>gmail.com@x\<close>, which is no provider, and yet the row
  is counted.
\<close>

theorem skip_warning_counterexample:
  "let rows = [[''email'' \<mapsto> ''a@gmail.com@x'']];
       s = init_state\<lparr>emailColumn := ''email''\<rparr>
   in spec_domain (toLowerCase ''a@gmail.com@x'') = Some ''gmail.com@x''
      \<and> ''gmail.com@x'' \<notin> set commonDomains
      \<and> length (filter (spec_skippable ''email'') rows) = 0
      \<and> skipWarning rows s = Some 1"
  by (simp add: Let_def skipWarning_def skippableEmails_def skippable_def at_index_def
        spec_skippable_def spec_domain_def toLowerCase_def commonDomains_def init_state_def)

end
